theory Spec2Isabelle
  imports Complex_Main "HOL-Library.Sublist"
begin

section \<open>Python numbers: binary64 arithmetic\<close>

text \<open>
  \<open>Memory.token_count\<close> is a Python \<open>float\<close>. A finite double is modelled by the rational
  number it denotes; an arithmetic operation is the exact operation followed by rounding to
  53 significant bits, ties to the even significand (IEEE 754 round-to-nearest-even, the
  only rounding CPython uses). The exponent is unbounded here: the counters below are sums
  and differences of word counts times 1.3, far below the overflow threshold, and sums and
  differences of doubles never fall between two subnormals.
\<close>

function bit_length :: "int \<Rightarrow> int" where
  "bit_length n = (if n \<le> 0 then 0 else 1 + bit_length (n div 2))"
  by pat_completeness auto
termination
  by (relation "measure nat") auto

declare bit_length.simps [simp del]

definition pow2 :: "int \<Rightarrow> rat" where
  "pow2 e = (if 0 \<le> e then 2 ^ nat e else 1 / 2 ^ nat (- e))"

definition ilog2 :: "rat \<Rightarrow> int" where
  \<comment> \<open>for \<open>0 < a\<close>: the integer \<open>g\<close> with \<open>2 ^ g \<le> a < 2 ^ (g + 1)\<close>\<close>
  "ilog2 a =
     (let g = (if 1 \<le> a then bit_length \<lfloor>a\<rfloor> - 1 else - bit_length \<lfloor>1 / a\<rfloor>)
      in if a < pow2 g then g - 1 else if pow2 (g + 1) \<le> a then g + 1 else g)"

definition round_half_even :: "rat \<Rightarrow> int" where
  "round_half_even x =
     (let f = \<lfloor>x\<rfloor>; d = x - of_int f
      in if d < 1 / 2 then f else if 1 / 2 < d then f + 1
         else if even f then f else f + 1)"

definition d64_round :: "rat \<Rightarrow> rat" where
  "d64_round x =
     (if x = 0 then 0
      else let a = \<bar>x\<bar>; e = ilog2 a - 52; m = round_half_even (a / pow2 e)
           in sgn x * of_int m * pow2 e)"

definition fadd :: "rat \<Rightarrow> rat \<Rightarrow> rat" where
  "fadd a b = d64_round (a + b)"

definition fsub :: "rat \<Rightarrow> rat \<Rightarrow> rat" where
  "fsub a b = d64_round (a - b)"

definition fmul :: "rat \<Rightarrow> rat \<Rightarrow> rat" where
  "fmul a b = d64_round (a * b)"

definition float_of_nat :: "nat \<Rightarrow> rat" where
  "float_of_nat n = d64_round (of_nat n)"

definition float_lit :: "rat \<Rightarrow> rat" where
  \<comment> \<open>the double a decimal literal of the source denotes\<close>
  "float_lit q = d64_round q"

section \<open>Python strings\<close>

definition is_space :: "char \<Rightarrow> bool" where
  \<comment> \<open>\<open>str.isspace\<close> on the code points below 256\<close>
  "is_space c =
     (let n = of_char c :: nat
      in (9 \<le> n \<and> n \<le> 13) \<or> (28 \<le> n \<and> n \<le> 32) \<or> n = 133 \<or> n = 160)"

fun split_acc :: "string \<Rightarrow> string \<Rightarrow> string list" where
  "split_acc cur [] = (if cur = [] then [] else [cur])"
| "split_acc cur (c # cs) =
     (if is_space c then (if cur = [] then split_acc [] cs else cur # split_acc [] cs)
      else split_acc (cur @ [c]) cs)"

definition py_split :: "string \<Rightarrow> string list" where
  \<comment> \<open>\<open>s.split()\<close>: the maximal runs of non-whitespace characters\<close>
  "py_split s = split_acc [] s"

section \<open>memory.py\<close>

record message =
  role :: string
  content :: string
  timestamp :: string

definition Message_init :: "string \<Rightarrow> string \<Rightarrow> string \<Rightarrow> message" where
  \<comment> \<open>\<open>stamp\<close> is the reading of \<open>datetime.now().isoformat()\<close> taken by the constructor\<close>
  "Message_init r c stamp = \<lparr>role = r, content = c, timestamp = stamp\<rparr>"

type_synonym py_dict = "(string \<times> string) list"

definition to_dict :: "message \<Rightarrow> py_dict" where
  "to_dict msg =
     [(''role'', role msg), (''content'', content msg), (''timestamp'', timestamp msg)]"

definition to_chat_message :: "message \<Rightarrow> py_dict" where
  "to_chat_message msg = [(''role'', role msg), (''content'', content msg)]"

record memory =
  messages :: "message list"
  max_tokens :: int
  token_count :: rat

definition Memory_init :: "int \<Rightarrow> memory" where
  "Memory_init mx = \<lparr>messages = [], max_tokens = mx, token_count = 0\<rparr>"

definition token_estimate :: "string \<Rightarrow> rat" where
  \<comment> \<open>\<open>len(content.split()) * 1.3\<close>\<close>
  "token_estimate c = fmul (float_of_nat (length (py_split c))) (float_lit (13 / 10))"

function prune_if_needed :: "memory \<Rightarrow> memory" where
  "prune_if_needed m =
     (if of_int (max_tokens m) < token_count m \<and> 3 < length (messages m)
      then prune_if_needed
             (m\<lparr>messages := tl (messages m),
                token_count := fsub (token_count m)
                                    (token_estimate (content (hd (messages m))))\<rparr>)
      else m)"
  by pat_completeness auto
termination
  by (relation "measure (\<lambda>m. length (messages m))") auto

declare prune_if_needed.simps [simp del]

definition add_message :: "memory \<Rightarrow> string \<Rightarrow> string \<Rightarrow> string \<Rightarrow> memory" where
  "add_message m r c stamp =
     prune_if_needed
       (m\<lparr>messages := messages m @ [Message_init r c stamp],
          token_count := fadd (token_count m) (token_estimate c)\<rparr>)"

definition get_chat_messages :: "memory \<Rightarrow> py_dict list" where
  "get_chat_messages m = map to_chat_message (messages m)"

definition py_slice_from :: "'a list \<Rightarrow> int \<Rightarrow> 'a list" where
  \<comment> \<open>\<open>xs[start:]\<close>: a negative start counts from the end, and the bound is clipped\<close>
  "py_slice_from xs start =
     (let n = int (length xs);
          s = (if start < 0 then max 0 (start + n) else min start n)
      in drop (nat s) xs)"

definition get_last_n_messages :: "memory \<Rightarrow> int \<Rightarrow> py_dict list" where
  "get_last_n_messages m n = map to_chat_message (py_slice_from (messages m) (- n))"

definition clear :: "memory \<Rightarrow> memory" where
  "clear m = m\<lparr>messages := [], token_count := 0\<rparr>"

text \<open>A sequence of \<open>add_message\<close> calls, each with its role, content and clock reading.\<close>

fun add_messages :: "memory \<Rightarrow> (string \<times> string \<times> string) list \<Rightarrow> memory" where
  "add_messages m [] = m"
| "add_messages m ((r, c, stamp) # es) = add_messages (add_message m r c stamp) es"

definition appended :: "(string \<times> string \<times> string) list \<Rightarrow> message list" where
  "appended es = map (\<lambda>(r, c, stamp). Message_init r c stamp) es"


section \<open>Python values and exceptions\<close>

text \<open>
  The values \<open>json.loads\<close> can return; \<open>PyNone\<close> is Python's \<open>None\<close>, which is also what
  \<open>dict.get\<close> returns for a missing key. A dictionary keeps its items in insertion order.
\<close>

datatype py_value =
    PyNone
  | PyBool bool
  | PyInt int
  | PyFloat rat
  | PyStr string
  | PyList "py_value list"
  | PyDict "(string \<times> py_value) list"

text \<open>
  What a call can raise. Instances of \<open>Exception\<close> are the one the source raises itself,
  the decoder's \<open>JSONDecodeError\<close>, and \<open>Raised cls text\<close> for any other exception class a
  collaborator (the HTTP library, a tool function, an operation on a value of the wrong
  type) raises, with the text \<open>str(e)\<close> gives. \<open>NonException cls text\<close> is a raise of a class
  that derives from \<open>BaseException\<close> but not from \<open>Exception\<close>: \<open>SystemExit\<close>,
  \<open>KeyboardInterrupt\<close>, \<open>GeneratorExit\<close>. A clause \<open>except Exception\<close> catches the first three
  kinds and lets the last one pass.
\<close>

datatype error =
    Exception string
  | JSONDecodeError string
  | Raised string string
  | NonException string string

fun str_of_error :: "error \<Rightarrow> string" where
  "str_of_error (Exception msg) = msg"
| "str_of_error (JSONDecodeError msg) = msg"
| "str_of_error (Raised cls msg) = msg"
| "str_of_error (NonException cls msg) = msg"

fun is_Exception :: "error \<Rightarrow> bool" where
  \<comment> \<open>\<open>isinstance(e, Exception)\<close>\<close>
  "is_Exception (Exception msg) = True"
| "is_Exception (JSONDecodeError msg) = True"
| "is_Exception (Raised cls msg) = True"
| "is_Exception (NonException cls msg) = False"

fun truthy :: "py_value \<Rightarrow> bool" where
  "truthy PyNone = False"
| "truthy (PyBool b) = b"
| "truthy (PyInt i) = (i \<noteq> 0)"
| "truthy (PyFloat x) = (x \<noteq> 0)"
| "truthy (PyStr s) = (s \<noteq> [])"
| "truthy (PyList xs) = (xs \<noteq> [])"
| "truthy (PyDict kvs) = (kvs \<noteq> [])"

definition py_str :: "(py_value \<Rightarrow> string) \<Rightarrow> py_value \<Rightarrow> string" where
  \<comment> \<open>\<open>str(v)\<close> as an f-string formats it: a string is itself, any other value its \<open>repr\<close>\<close>
  "py_str repr v = (case v of PyStr s \<Rightarrow> s | _ \<Rightarrow> repr v)"

definition dict_get :: "py_value \<Rightarrow> string \<Rightarrow> py_value \<Rightarrow> error + py_value" where
  \<comment> \<open>\<open>d.get(key, default)\<close>; a later item with the same key has replaced an earlier one\<close>
  "dict_get d key dflt =
     (case d of
        PyDict kvs \<Rightarrow> Inr (case map_of (rev kvs) key of None \<Rightarrow> dflt | Some v \<Rightarrow> v)
      | _ \<Rightarrow> Inl (Raised ''AttributeError'' ''object has no attribute get''))"

fun digits :: "nat \<Rightarrow> string" where
  "digits n = (if n < 10 then [char_of (48 + n)] else digits (n div 10) @ [char_of (48 + n mod 10)])"

declare digits.simps [simp del]

definition str_of_int :: "int \<Rightarrow> string" where
  "str_of_int i = (if i < 0 then CHR ''-'' # digits (nat (- i)) else digits (nat i))"

definition join :: "string \<Rightarrow> string list \<Rightarrow> string" where
  \<comment> \<open>\<open>sep.join(parts)\<close>\<close>
  "join sep parts = (case parts of [] \<Rightarrow> [] | p # ps \<Rightarrow> p @ concat (map (\<lambda>x. sep @ x) ps))"

function replace_from :: "string \<Rightarrow> string \<Rightarrow> string \<Rightarrow> string" where
  "replace_from old new s =
     (if old = [] \<or> s = [] then s
      else if prefix old s then new @ replace_from old new (drop (length old) s)
      else hd s # replace_from old new (tl s))"
  by pat_completeness auto
termination
  by (relation "measure (\<lambda>(old, new, s). length s)") auto

declare replace_from.simps [simp del]

definition py_replace :: "string \<Rightarrow> string \<Rightarrow> string \<Rightarrow> string" where
  \<comment> \<open>\<open>s.replace(old, new)\<close>: every non-overlapping occurrence, from the left; an empty
      \<open>old\<close> matches before every character and at the end\<close>
  "py_replace s old new =
     (if old = [] then new @ concat (map (\<lambda>c. c # new) s) else replace_from old new s)"

section \<open>The regular expression engine, as far as \<open>json_pattern\<close> needs it\<close>

text \<open>
  \<open>re\<close> parses the pattern into a sequence of items: a literal character, a character
  excluded (\<open>[^c]\<close>), or a greedy repetition of one of them with a minimum count. The
  capture groups of the pattern do not change what matches; only \<open>group(0)\<close> is read.
  \<open>match_here\<close> is the backtracking matcher anchored at the start of its input: a repetition
  first takes as many characters as it can and gives them back one at a time; the result is
  the input left after the match.
\<close>

datatype re_atom = LITERAL char | NOT_LITERAL char

datatype re_item = ONE re_atom | MAX_REPEAT nat re_atom

fun atom_matches :: "re_atom \<Rightarrow> char \<Rightarrow> bool" where
  "atom_matches (LITERAL a) c = (c = a)"
| "atom_matches (NOT_LITERAL a) c = (c \<noteq> a)"

fun match_here :: "re_item list \<Rightarrow> string \<Rightarrow> string option" where
  "match_here [] s = Some s"
| "match_here (ONE a # p) [] = None"
| "match_here (ONE a # p) (c # cs) = (if atom_matches a c then match_here p cs else None)"
| "match_here (MAX_REPEAT (Suc n) a # p) [] = None"
| "match_here (MAX_REPEAT (Suc n) a # p) (c # cs) =
     (if atom_matches a c then match_here (MAX_REPEAT n a # p) cs else None)"
| "match_here (MAX_REPEAT 0 a # p) [] = match_here p []"
| "match_here (MAX_REPEAT 0 a # p) (c # cs) =
     (if atom_matches a c
      then (case match_here (MAX_REPEAT 0 a # p) cs of
              Some r \<Rightarrow> Some r
            | None \<Rightarrow> match_here p (c # cs))
      else match_here p (c # cs))"

fun re_search :: "re_item list \<Rightarrow> string \<Rightarrow> string option" where
  \<comment> \<open>\<open>re.search(p, s)\<close>: the leftmost start at which the pattern matches; the result is
      \<open>group(0)\<close>, the matched text\<close>
  "re_search p [] = (case match_here p [] of Some r \<Rightarrow> Some [] | None \<Rightarrow> None)"
| "re_search p (c # cs) =
     (case match_here p (c # cs) of
        Some r \<Rightarrow> Some (take (length (c # cs) - length r) (c # cs))
      | None \<Rightarrow> re_search p cs)"

definition dq :: char where
  "dq = CHR 0x22"

definition bs :: char where
  "bs = CHR 0x5C"

definition quoted :: "string \<Rightarrow> string" where
  "quoted s = dq # s @ [dq]"

definition lits :: "string \<Rightarrow> re_item list" where
  "lits s = map (\<lambda>c. ONE (LITERAL c)) s"

definition bs_s_star :: "re_item list" where
  \<comment> \<open>the raw-string text \<^verbatim>\<open>\\s*\<close>: an escaped backslash, then \<open>s*\<close>\<close>
  "bs_s_star = [ONE (LITERAL bs), MAX_REPEAT 0 (LITERAL (CHR ''s''))]"

definition json_pattern :: "re_item list" where
  \<comment> \<open>the pattern of \<open>_extract_tool_call\<close>, item by item as \<open>re\<close> parses the raw string\<close>
  "json_pattern =
     lits ''{'' @ bs_s_star @ lits (quoted ''tool'') @ bs_s_star @ lits '':'' @ bs_s_star
     @ lits [dq] @ [MAX_REPEAT 1 (NOT_LITERAL dq)] @ lits [dq] @ bs_s_star @ lits '',''
     @ bs_s_star @ lits (quoted ''parameters'') @ bs_s_star @ lits '':'' @ bs_s_star
     @ lits [bs] @ lits ''{'' @ [MAX_REPEAT 1 (NOT_LITERAL (CHR ''}''))]
     @ lits [bs] @ lits ''}'' @ bs_s_star @ lits [bs] @ lits ''}''"

section \<open>The JSON decoder\<close>

definition json_ws :: "char \<Rightarrow> bool" where
  "json_ws c = (c = CHR '' '' \<or> c = CHR 0x09 \<or> c = CHR 0x0A \<or> c = CHR 0x0D)"

definition json_loads :: "(string \<Rightarrow> error + py_value) \<Rightarrow> string \<Rightarrow> error + py_value" where
  \<comment> \<open>\<open>json.loads\<close> of the standard library: leading whitespace is skipped and an opening
      brace starts an object, whose next character after whitespace must be the quote of a
      property name or the closing brace. \<open>scan\<close> is the rest of the decoder, applied to the
      document when it gets past that point.\<close>
  "json_loads scan s =
     (case dropWhile json_ws s of
        [] \<Rightarrow> Inl (JSONDecodeError ''Expecting value'')
      | c # rest \<Rightarrow>
          if c = CHR ''{'' then
            (case dropWhile json_ws rest of
               [] \<Rightarrow> Inl (JSONDecodeError ''Expecting property name enclosed in double quotes'')
             | d # rest' \<Rightarrow>
                 if d = dq then scan s
                 else if d = CHR ''}'' then
                   (if dropWhile json_ws rest' = [] then Inr (PyDict [])
                    else Inl (JSONDecodeError ''Extra data''))
                 else Inl (JSONDecodeError ''Expecting property name enclosed in double quotes''))
          else scan s)"


section \<open>The outside world\<close>

text \<open>
  What the program reaches outside itself: the HTTP endpoint of the backend, the clock, the
  terminal, and the parts of the Python libraries that are taken as given. \<open>'w\<close> is the state
  of that world, threaded through every call that can observe or change it.
\<close>

record payload =
  p_model :: string
  p_messages :: "py_dict list"
  p_stream :: bool
  p_temperature :: rat
  p_num_predict :: int
  p_system :: "string option"

record http_response =
  status_code :: int
  response_text :: string
  message_content :: "error + string"
    \<comment> \<open>what \<open>response.json()["message"]["content"]\<close> evaluates to, or raises\<close>

record 'w env =
  post :: "string \<Rightarrow> payload \<Rightarrow> 'w \<Rightarrow> (error + http_response) \<times> 'w"
    \<comment> \<open>\<open>requests.post(url, json=payload)\<close>\<close>
  now :: "'w \<Rightarrow> string \<times> 'w"
    \<comment> \<open>\<open>datetime.now().isoformat()\<close>\<close>
  print_colored :: "string \<Rightarrow> string \<Rightarrow> 'w \<Rightarrow> 'w"
    \<comment> \<open>\<open>print(colored(text, colour))\<close>\<close>
  scan :: "string \<Rightarrow> error + py_value"
    \<comment> \<open>the JSON decoder past the opening of the document, see \<open>json_loads\<close>\<close>
  repr :: "py_value \<Rightarrow> string"

section \<open>tools.py\<close>

record 'w tool =
  name :: string
  description :: string
  func :: "py_value \<Rightarrow> 'w \<Rightarrow> (error + string) \<times> 'w"
    \<comment> \<open>\<open>func(**parameters)\<close>: binding the keyword arguments and running the function;
        a mapping the function cannot be called with is one of its exceptions\<close>

definition Tool_init ::
  "string \<Rightarrow> string \<Rightarrow> (py_value \<Rightarrow> 'w \<Rightarrow> (error + string) \<times> 'w) \<Rightarrow> 'w tool" where
  "Tool_init n d f = \<lparr>name = n, description = d, func = f\<rparr>"

definition Tool_call :: "'w tool \<Rightarrow> py_value \<Rightarrow> 'w \<Rightarrow> (error + string) \<times> 'w" where
  \<comment> \<open>\<open>Tool.__call__\<close>\<close>
  "Tool_call t parameters w = func t parameters w"

section \<open>ollama\_client.py\<close>

record ollama_client =
  base_url :: string

definition OllamaClient_init :: "string \<Rightarrow> ollama_client" where
  "OllamaClient_init url = \<lparr>base_url = url\<rparr>"

definition default_base_url :: string where
  "default_base_url = ''http://localhost:11434''"

datatype chat_result = Text string | Stream http_response

definition chat ::
  "'w env \<Rightarrow> ollama_client \<Rightarrow> string \<Rightarrow> py_dict list \<Rightarrow> string option \<Rightarrow> rat \<Rightarrow> int
     \<Rightarrow> bool \<Rightarrow> 'w \<Rightarrow> (error + chat_result) \<times> 'w" where
  "chat e c mdl msgs sys_prompt temperature max_toks stream w =
     (let url = base_url c @ ''/api/chat'';
          pl = \<lparr>p_model = mdl, p_messages = msgs, p_stream = stream,
                p_temperature = temperature, p_num_predict = max_toks,
                p_system = (case sys_prompt of
                              None \<Rightarrow> None
                            | Some sp \<Rightarrow> if sp = [] then None else Some sp)\<rparr>
      in case post e url pl w of
           (Inl err, w') \<Rightarrow> (Inl err, w')
         | (Inr response, w') \<Rightarrow>
             if stream then (Inr (Stream response), w')
             else if status_code response = 200 then
               (case message_content response of
                  Inl err \<Rightarrow> (Inl err, w')
                | Inr txt \<Rightarrow> (Inr (Text txt), w'))
             else (Inl (Exception (''Error: '' @ str_of_int (status_code response)
                                   @ '' - '' @ response_text response)), w'))"

section \<open>agent.py\<close>

record 'w agent =
  client :: ollama_client
  model :: string
  memory :: memory
  tools :: "'w tool list"
  verbose :: bool
  system_prompt :: string

definition create_default_system_prompt :: "'w tool list \<Rightarrow> string" where
  "create_default_system_prompt ts =
     (let tools_description =
            join [CHR 0x0A] (map (\<lambda>t. ''- '' @ name t @ '': '' @ description t) ts)
      in ''You are a helpful AI assistant that can use tools to assist the user. ''
         @ [CHR 0x0A] @ ''        '' @ [CHR 0x0A]
         @ ''AVAILABLE TOOLS:'' @ [CHR 0x0A]
         @ tools_description @ [CHR 0x0A, CHR 0x0A]
         @ ''To use a tool, respond with a JSON object in the following format:''
         @ ''{'' @ quoted ''tool'' @ '':'' @ quoted ''tool_name'' @ '','' @ quoted ''parameters''
         @ '':{'' @ quoted ''param1'' @ '':'' @ quoted ''value1'' @ '','' @ quoted ''param2''
         @ '':'' @ quoted ''value2'' @ ''}}'' @ [CHR 0x0A, CHR 0x0A]
         @ ''If you don't need to use a tool, just respond normally.'' @ [CHR 0x0A]
         @ ''If a user requests something that would be better handled by a tool, use the appropriate tool.''
         @ [CHR 0x0A]
         @ ''Always provide thoughtful, helpful responses and prioritize solving the user's problem.'')"

definition Agent_init ::
  "'w env \<Rightarrow> 'w tool list \<Rightarrow> string \<Rightarrow> string option \<Rightarrow> 'w tool list option \<Rightarrow> bool \<Rightarrow> 'w
     \<Rightarrow> (error + 'w agent) \<times> 'w" where
  \<comment> \<open>\<open>STANDARD_TOOLS\<close> is the module's list of six tools, whose functions read the clock
      and the file system; the constructor has no failing step\<close>
  "Agent_init e STANDARD_TOOLS mdl sys_prompt tls verb w =
     (let ts = (case tls of None \<Rightarrow> STANDARD_TOOLS
                | Some l \<Rightarrow> if l = [] then STANDARD_TOOLS else l);
          sp = (case sys_prompt of None \<Rightarrow> create_default_system_prompt ts | Some p \<Rightarrow> p);
          (stamp, w') = now e w
      in (Inr \<lparr>client = OllamaClient_init default_base_url, model = mdl,
               memory = add_message (Memory_init 16000) ''system'' sp stamp,
               tools = ts, verbose = verb, system_prompt = sp\<rparr>, w'))"

definition extract_tool_call ::
  "(string \<Rightarrow> error + py_value) \<Rightarrow> string \<Rightarrow> error + (py_value \<times> py_value \<times> string)" where
  "extract_tool_call sc response =
     (case re_search json_pattern response of
        None \<Rightarrow> Inr (PyNone, PyNone, response)
      | Some json_str \<Rightarrow>
          (case json_loads sc json_str of
             Inl (JSONDecodeError msg) \<Rightarrow> Inr (PyNone, PyNone, response)
           | Inl err \<Rightarrow> Inl err
           | Inr tool_call \<Rightarrow>
               (case dict_get tool_call ''tool'' PyNone of
                  Inl err \<Rightarrow> Inl err
                | Inr tool_name \<Rightarrow>
                    (case dict_get tool_call ''parameters'' (PyDict []) of
                       Inl err \<Rightarrow> Inl err
                     | Inr parameters \<Rightarrow>
                         Inr (tool_name, parameters, py_replace response json_str [])))))"

fun execute_tool ::
  "(py_value \<Rightarrow> string) \<Rightarrow> 'w tool list \<Rightarrow> py_value \<Rightarrow> py_value \<Rightarrow> 'w
     \<Rightarrow> (error + string) \<times> 'w" where
  "execute_tool rp [] tool_name parameters w =
     (Inr (''Unknown tool: '' @ py_str rp tool_name), w)"
| "execute_tool rp (t # ts) tool_name parameters w =
     (if PyStr (name t) = tool_name then
        (case Tool_call t parameters w of
           (Inr out, w') \<Rightarrow> (Inr out, w')
         | (Inl err, w') \<Rightarrow>
             if is_Exception err then
               (Inr (''Error executing tool '' @ [CHR 0x27] @ py_str rp tool_name @ [CHR 0x27]
                     @ '': '' @ str_of_error err), w')
             else (Inl err, w'))
      else execute_tool rp ts tool_name parameters w)"

definition temperature_0_7 :: rat where
  "temperature_0_7 = float_lit (7 / 10)"

definition process_user_input ::
  "'w env \<Rightarrow> 'w agent \<Rightarrow> string \<Rightarrow> 'w \<Rightarrow> (error + string) \<times> 'w agent \<times> 'w" where
  "process_user_input e a user_input w0 =
     (let (t1, w1) = now e w0;
          a1 = a\<lparr>memory := add_message (memory a) ''user'' user_input t1\<rparr>;
          msgs = get_chat_messages (memory a1)
      in case chat e (client a1) (model a1) msgs (Some (system_prompt a1)) temperature_0_7
                1000 False w1 of
           (Inl err, w2) \<Rightarrow> (Inl err, a1, w2)
         | (Inr (Stream r), w2) \<Rightarrow>
             (Inl (Raised ''TypeError'' ''expected string or bytes-like object''), a1, w2)
         | (Inr (Text response), w2) \<Rightarrow>
             (case extract_tool_call (scan e) response of
                Inl err \<Rightarrow> (Inl err, a1, w2)
              | Inr (tool_name, parameters, cleaned_response) \<Rightarrow>
                  if truthy tool_name then
                    (case execute_tool (repr e) (tools a1) tool_name parameters w2 of
                       (Inl err, w3) \<Rightarrow> (Inl err, a1, w3)
                     | (Inr tool_response, w3) \<Rightarrow>
                    (let (t2, w4) = now e w3;
                         a2 = a1\<lparr>memory :=
                                 add_message (memory a1) ''assistant'' cleaned_response t2\<rparr>;
                         (t3, w5) = now e w4;
                         a3 = a2\<lparr>memory :=
                                 add_message (memory a2) ''system''
                                   (''Tool '' @ [CHR 0x27] @ py_str (repr e) tool_name
                                    @ [CHR 0x27] @ '' output: '' @ tool_response) t3\<rparr>;
                         msgs2 = get_chat_messages (memory a3)
                     in case chat e (client a3) (model a3) msgs2 (Some (system_prompt a3))
                               temperature_0_7 1000 False w5 of
                          (Inl err, w6) \<Rightarrow> (Inl err, a3, w6)
                        | (Inr (Stream r), w6) \<Rightarrow>
                            (Inl (Raised ''TypeError'' ''can only concatenate str''), a3, w6)
                        | (Inr (Text final_response), w6) \<Rightarrow>
                            (let (t4, w7) = now e w6;
                                 a4 = a3\<lparr>memory :=
                                         add_message (memory a3) ''assistant'' final_response t4\<rparr>;
                                 w8 = (if verbose a4 then
                                         print_colored e
                                           (''Tool response: '' @ tool_response) ''yellow''
                                           (print_colored e
                                              ([CHR 0x0A] @ ''Used tool: ''
                                               @ py_str (repr e) tool_name) ''yellow'' w7)
                                       else w7)
                             in (Inr final_response, a4, w8))))
                  else
                    (let (t2, w3) = now e w2;
                         a2 = a1\<lparr>memory := add_message (memory a1) ''assistant'' response t2\<rparr>
                     in (Inr response, a2, w3))))"

definition reset :: "'w env \<Rightarrow> 'w agent \<Rightarrow> 'w \<Rightarrow> 'w agent \<times> 'w" where
  "reset e a w =
     (let (stamp, w') = now e w
      in (a\<lparr>memory := add_message (clear (memory a)) ''system'' (system_prompt a) stamp\<rparr>, w'))"

section \<open>Quantities the specification speaks of, and example runs\<close>

definition recomputed_token_count :: "memory \<Rightarrow> rat" where
  \<comment> \<open>the sum recomputed over the retained messages, as Python's \<open>sum\<close> adds the doubles\<close>
  "recomputed_token_count m =
     foldl fadd 0 (map (\<lambda>msg. token_estimate (content msg)) (messages m))"

definition retained_sum :: "memory \<Rightarrow> rat" where
  \<comment> \<open>the doubles \<open>len(content.split()) * 1.3\<close> of the retained messages, added exactly\<close>
  "retained_sum m = (\<Sum>msg\<leftarrow>messages m. token_estimate (content msg))"

definition appended_sum :: "(string \<times> string \<times> string) list \<Rightarrow> rat" where
  \<comment> \<open>the same over every message of a sequence of appends\<close>
  "appended_sum es = (\<Sum>(r, c, stamp)\<leftarrow>es. token_estimate c)"

definition unit_roundoff :: rat where
  \<comment> \<open>the largest relative error of one rounding to 53 bits\<close>
  "unit_roundoff = 1 / 2 ^ 53"

definition drift_bound :: "nat \<Rightarrow> rat" where
  "drift_bound k = (1 + unit_roundoff) ^ k - 1"

definition exact_token_sum :: "memory \<Rightarrow> rat" where
  \<comment> \<open>the same sum in exact arithmetic: 1.3 units per word\<close>
  "exact_token_sum m =
     (\<Sum>msg\<leftarrow>messages m. of_nat (length (py_split (content msg))) * (13 / 10))"

definition chat4 :: "(string \<times> string \<times> string) list" where
  "chat4 = [(''system'', ''helpful'', ''t0''), (''user'', ''hello'', ''t1''),
            (''assistant'', ''hi'', ''t2''), (''user'', ''compute two plus'', ''t3'')]"

definition tool_call_text :: string where
  "tool_call_text = ''{'' @ quoted ''tool'' @ '':'' @ quoted ''X'' @ '','' @ quoted ''parameters''
     @ '':{'' @ quoted ''a'' @ '':'' @ quoted ''b'' @ ''}}''"

definition escaped_call_text :: string where
  \<comment> \<open>a text with a backslash wherever the pattern asks for one\<close>
  "escaped_call_text = ''{'' @ [bs] @ ''ss'' @ quoted ''tool'' @ [bs] @ '':'' @ [bs] @ quoted ''X''
     @ [bs] @ '','' @ [bs] @ ''s'' @ quoted ''parameters'' @ [bs] @ '':'' @ [bs] @ [bs] @ ''{''
     @ quoted ''a'' @ '':'' @ quoted ''b'' @ [bs] @ ''}'' @ [bs] @ [bs] @ ''}''"

definition primary_response :: string where
  "primary_response = ''I will compute this. {'' @ quoted ''tool'' @ '':'' @ quoted ''calculate''
     @ '','' @ quoted ''parameters'' @ '':{'' @ quoted ''expression'' @ '':'' @ quoted ''2+2''
     @ ''}}''"

text \<open>
  A world that counts the requests sent to the backend: the first request is answered with
  \<open>primary_response\<close>, every later one with a follow-up text.
\<close>

definition scenario_env :: "nat env" where
  "scenario_env =
     \<lparr>post = (\<lambda>url pl w.
               (Inr \<lparr>status_code = 200, response_text = [],
                     message_content = Inr (if w = 0 then primary_response
                                            else ''The answer is 4.'')\<rparr>, Suc w)),
      now = (\<lambda>w. (''2024-01-01T00:00:00'', w)),
      print_colored = (\<lambda>txt colour w. w),
      scan = (\<lambda>s. Inl (JSONDecodeError ''Expecting value'')),
      repr = (\<lambda>v. ''?'')\<rparr>"

definition calculate_tool :: "nat tool" where
  "calculate_tool =
     Tool_init ''calculate'' ''Evaluate a mathematical expression'' (\<lambda>p w. (Inr ''Result: 4'', w))"

definition failing_tool :: "nat tool" where
  "failing_tool =
     Tool_init ''calculate'' ''Always fails'' (\<lambda>p w. (Inl (Raised ''ValueError'' ''bad input''), w))"

definition search_tool :: "nat tool" where
  "search_tool =
     Tool_init ''search'' ''Search the web for information'' (\<lambda>p w. (Inr ''Mock search results'', w))"


definition offline_env :: "nat env" where
  "offline_env =
     scenario_env\<lparr>post := (\<lambda>url pl w. (Inl (Raised ''ConnectionError'' ''connection refused''), Suc w))\<rparr>"

definition offline_agent :: "nat agent" where
  "offline_agent =
     \<lparr>client = OllamaClient_init default_base_url, model = ''llama3'',
      memory = add_message (Memory_init 16000) ''system'' ''You can calculate.'' ''2024-01-01T00:00:00'',
      tools = [calculate_tool], verbose = False, system_prompt = ''You can calculate.''\<rparr>"

section \<open>Eviction: the shape of the retained messages\<close>

lemma prune_idle: "length (messages m) \<le> 3 \<Longrightarrow> prune_if_needed m = m"
  by (subst prune_if_needed.simps) simp

lemma prune_suffix: "suffix (messages (prune_if_needed m)) (messages m)"
proof (induction m rule: prune_if_needed.induct)
  case (1 m)
  show ?case
  proof (cases "of_int (max_tokens m) < token_count m \<and> 3 < length (messages m)")
    case True
    then have "suffix (messages (prune_if_needed m)) (tl (messages m))"
      using "1.IH" by (subst prune_if_needed.simps) simp
    moreover have "suffix (tl (messages m)) (messages m)"
      by (rule suffix_tl)
    ultimately show ?thesis by (rule suffix_order.trans)
  next
    case False
    then show ?thesis by (subst prune_if_needed.simps) auto
  qed
qed

lemma prune_keeps_three:
  "min 3 (length (messages m)) \<le> length (messages (prune_if_needed m))"
proof (induction m rule: prune_if_needed.induct)
  case (1 m)
  show ?case
  proof (cases "of_int (max_tokens m) < token_count m \<and> 3 < length (messages m)")
    case True
    then have "min 3 (length (tl (messages m))) \<le> length (messages (prune_if_needed m))"
      using "1.IH" by (subst prune_if_needed.simps) simp
    moreover from True have "3 < length (messages m)" by blast
    then have "3 \<le> length (tl (messages m))" by simp
    ultimately show ?thesis by linarith
  next
    case False
    then show ?thesis by (subst prune_if_needed.simps) auto
  qed
qed

lemma prune_same_length:
  assumes "length (messages (prune_if_needed m)) = length (messages m)"
  shows "prune_if_needed m = m"
proof (rule ccontr)
  assume neq: "prune_if_needed m \<noteq> m"
  then have c: "of_int (max_tokens m) < token_count m \<and> 3 < length (messages m)"
    by (subst (asm) prune_if_needed.simps) (auto split: if_splits)
  let ?m' = "m\<lparr>messages := tl (messages m),
                token_count := fsub (token_count m) (token_estimate (content (hd (messages m))))\<rparr>"
  have e: "prune_if_needed m = prune_if_needed ?m'"
    using c by (subst prune_if_needed.simps) simp
  have "length (messages (prune_if_needed ?m')) \<le> length (messages ?m')"
    using prune_suffix [of ?m'] by (rule suffix_length_le)
  then have "length (messages (prune_if_needed m)) \<le> length (messages ?m')"
    by (simp only: e)
  moreover from c have "3 < length (messages m)" by blast
  then have "length (messages ?m') < length (messages m)" by simp
  ultimately show False using assms by linarith
qed

lemma add_message_suffix:
  "suffix (messages (add_message m r c stamp)) (messages m @ [Message_init r c stamp])"
  unfolding add_message_def using prune_suffix [of "m\<lparr>messages := messages m @ [Message_init r c stamp],
          token_count := fadd (token_count m) (token_estimate c)\<rparr>"] by simp

lemma add_message_keeps_three:
  "min 3 (Suc (length (messages m))) \<le> length (messages (add_message m r c stamp))"
  unfolding add_message_def using prune_keeps_three [of "m\<lparr>messages := messages m @ [Message_init r c stamp],
          token_count := fadd (token_count m) (token_estimate c)\<rparr>"] by simp

lemma add_messages_suffix:
  "suffix (messages (add_messages m es)) (messages m @ appended es)"
proof (induction m es rule: add_messages.induct)
  case (1 m)
  then show ?case by (simp add: appended_def)
next
  case (2 m r c stamp es)
  have "suffix (messages (add_message m r c stamp) @ appended es)
               ((messages m @ [Message_init r c stamp]) @ appended es)"
    using add_message_suffix by (simp only: same_suffix_suffix)
  with 2 show ?case
    by (auto simp: appended_def intro: suffix_order.trans)
qed

lemma add_messages_keeps_three:
  "min 3 (length (messages m) + length es) \<le> length (messages (add_messages m es))"
proof (induction m es rule: add_messages.induct)
  case (1 m)
  then show ?case by simp
next
  case (2 m r c stamp es)
  have "min 3 (Suc (length (messages m))) \<le> length (messages (add_message m r c stamp))"
    by (rule add_message_keeps_three)
  with 2 show ?case by auto
qed

lemma length_appended: "length (appended es) = length es"
  by (simp add: appended_def)

lemma last_add_message:
  "last (messages (add_message m r c stamp)) = Message_init r c stamp"
proof -
  let ?ms = "messages (add_message m r c stamp)"
  have "min 3 (Suc (length (messages m))) \<le> length ?ms"
    by (rule add_message_keeps_three)
  then have ne: "?ms \<noteq> []" by auto
  obtain k where "messages m @ [Message_init r c stamp] = k @ ?ms"
    using add_message_suffix [of m r c stamp] by (auto simp: suffix_def)
  then have "last (k @ ?ms) = Message_init r c stamp"
    by (metis last_snoc)
  with ne show ?thesis by simp
qed

subsection \<open>The example conversation, step by step\<close>

text \<open>
  The four messages of \<open>chat4\<close> have one, one, one and three words. The doubles involved
  are written as the fractions they denote: 1.3 is \<open>5854679515581645 / 2 ^ 52\<close>.
\<close>

lemma words_chat4:
  "length (py_split ''helpful'') = 1" "length (py_split ''hello'') = 1"
  "length (py_split ''hi'') = 1" "length (py_split ''compute two plus'') = 3"
  by (simp_all add: py_split_def is_space_def)

lemma estimate_one_word:
  "fmul (float_of_nat 1) (float_lit (13 / 10)) = 5854679515581645 / 4503599627370496"
  by code_simp

lemma estimate_three_words:
  "fmul (float_of_nat 3) (float_lit (13 / 10)) = 2195504818343117 / 562949953421312"
  by code_simp

lemma estimate_chat4:
  "token_estimate ''helpful'' = 5854679515581645 / 4503599627370496"
  "token_estimate ''hello'' = 5854679515581645 / 4503599627370496"
  "token_estimate ''hi'' = 5854679515581645 / 4503599627370496"
  "token_estimate ''compute two plus'' = 2195504818343117 / 562949953421312"
  by (simp_all only: token_estimate_def words_chat4 estimate_one_word estimate_three_words)

lemma running_sums:
  "fadd 0 (5854679515581645 / 4503599627370496) = 5854679515581645 / 4503599627370496"
  "fadd (5854679515581645 / 4503599627370496) (5854679515581645 / 4503599627370496)
     = 5854679515581645 / 2251799813685248"
  "fadd (5854679515581645 / 2251799813685248) (5854679515581645 / 4503599627370496)
     = 2195504818343117 / 562949953421312"
  "fadd (2195504818343117 / 562949953421312) (2195504818343117 / 562949953421312)
     = 2195504818343117 / 281474976710656"
  "fsub (2195504818343117 / 281474976710656) (5854679515581645 / 4503599627370496)
     = 7318349394477057 / 1125899906842624"
  "fadd (5854679515581645 / 2251799813685248) (2195504818343117 / 562949953421312) = 13 / 2"
  by code_simp+

lemma first_three_state:
  "add_messages (Memory_init mx) (take 3 chat4) =
     \<lparr>messages = appended (take 3 chat4), max_tokens = mx,
      token_count = 2195504818343117 / 562949953421312\<rparr>"
  by (simp add: chat4_def add_message_def Memory_init_def prune_idle estimate_chat4
      running_sums appended_def)

lemma four_state:
  "add_messages (Memory_init mx) chat4 =
     (if rat_of_int mx < 2195504818343117 / 281474976710656
      then \<lparr>messages = drop 1 (appended chat4), max_tokens = mx,
            token_count = 7318349394477057 / 1125899906842624\<rparr>
      else \<lparr>messages = appended chat4, max_tokens = mx,
            token_count = 2195504818343117 / 281474976710656\<rparr>)"
proof -
  have "add_messages (Memory_init mx) chat4 =
          add_messages (add_messages (Memory_init mx) (take 3 chat4)) (drop 3 chat4)"
    by (simp add: chat4_def)
  also have "\<dots> = prune_if_needed
      \<lparr>messages = appended chat4, max_tokens = mx,
       token_count = 2195504818343117 / 281474976710656\<rparr>"
    unfolding first_three_state
    by (simp add: chat4_def add_message_def estimate_chat4 running_sums appended_def)
  also have "\<dots> = (if rat_of_int mx < 2195504818343117 / 281474976710656
      then \<lparr>messages = drop 1 (appended chat4), max_tokens = mx,
            token_count = 7318349394477057 / 1125899906842624\<rparr>
      else \<lparr>messages = appended chat4, max_tokens = mx,
            token_count = 2195504818343117 / 281474976710656\<rparr>)"
    by (subst prune_if_needed.simps)
       (simp add: chat4_def appended_def Message_init_def prune_idle estimate_chat4 running_sums)
  finally show ?thesis .
qed

section \<open>Rounding: how far the counter can drift\<close>

text \<open>
  One rounding changes a value by at most \<open>unit_roundoff\<close> times its size. Every append and
  every eviction is one rounded operation on the counter, so after \<open>k\<close> operations the
  counter is within \<open>drift_bound k\<close> times the sum of everything appended of the exact sum
  of what is retained.
\<close>

lemma bit_length_bounds:
  "0 < n \<Longrightarrow> 1 \<le> bit_length n \<and> 2 ^ nat (bit_length n - 1) \<le> n \<and> n < 2 ^ nat (bit_length n)"
proof (induction n rule: bit_length.induct)
  case (1 n)
  show ?case
  proof (cases "n div 2 = 0")
    case True
    with "1.prems" have n: "n = 1" by presburger
    have "bit_length 1 = 1"
      by (subst bit_length.simps, subst bit_length.simps) simp
    with n show ?thesis by simp
  next
    case False
    with "1.prems" have pos: "0 < n div 2" by presburger
    let ?b = "bit_length (n div 2)"
    from "1.IH" "1.prems" pos
    have b: "1 \<le> ?b" and lo: "2 ^ nat (?b - 1) \<le> n div 2" and hi: "n div 2 < 2 ^ nat ?b"
      by auto
    have bl: "bit_length n = 1 + ?b"
      using "1.prems" by (subst bit_length.simps) simp
    have e1: "nat (1 + ?b - 1) = Suc (nat (?b - 1))"
      using b by (simp add: nat_diff_distrib)
    have e2: "nat (1 + ?b) = Suc (nat ?b)"
      using b by simp
    have "(2::int) ^ Suc (nat (?b - 1)) \<le> 2 * (n div 2)"
      using lo by simp
    also have "\<dots> \<le> n" by presburger
    finally have lo': "(2::int) ^ nat (bit_length n - 1) \<le> n"
      by (simp only: bl e1)
    have "n \<le> 2 * (n div 2) + 1" by presburger
    also have "\<dots> < 2 * 2 ^ nat ?b" using hi by simp
    finally have hi': "n < 2 ^ nat (bit_length n)"
      by (simp only: bl e2 power_Suc)
    from b bl lo' hi' show ?thesis by simp
  qed
qed

lemma pow2_pos: "0 < pow2 e"
  by (simp add: pow2_def)

lemma pow2_powi: "pow2 e = 2 powi e"
  by (simp add: pow2_def power_int_def power_inverse [symmetric] inverse_eq_divide power_one_over)

lemma ilog2_guess_lower:
  assumes "0 < a"
  shows "pow2 (if 1 \<le> a then bit_length \<lfloor>a\<rfloor> - 1 else - bit_length \<lfloor>1 / a\<rfloor>) \<le> a"
proof (cases "1 \<le> a")
  case True
  then have p: "0 < \<lfloor>a\<rfloor>" by simp
  from bit_length_bounds [OF p]
  have b: "1 \<le> bit_length \<lfloor>a\<rfloor>" and lo: "2 ^ nat (bit_length \<lfloor>a\<rfloor> - 1) \<le> \<lfloor>a\<rfloor>"
    by auto
  have "pow2 (bit_length \<lfloor>a\<rfloor> - 1) = of_int (2 ^ nat (bit_length \<lfloor>a\<rfloor> - 1))"
    using b by (simp add: pow2_def)
  also have "\<dots> \<le> of_int \<lfloor>a\<rfloor>"
    using lo by (simp only: of_int_le_iff)
  also have "\<dots> \<le> a" by simp
  finally show ?thesis using True by simp
next
  case False
  with assms have "1 < 1 / a" by simp
  then have p: "0 < \<lfloor>1 / a\<rfloor>" by simp
  let ?k = "bit_length \<lfloor>1 / a\<rfloor>"
  from bit_length_bounds [OF p]
  have b: "1 \<le> ?k" and hi: "\<lfloor>1 / a\<rfloor> < 2 ^ nat ?k"
    by auto
  from hi have "1 / a < of_int (2 ^ nat ?k)"
    by (simp only: floor_less_iff)
  then have "1 / a < 2 ^ nat ?k" by simp
  with assms have "1 < 2 ^ nat ?k * a"
    by (simp add: field_simps)
  then have "1 / 2 ^ nat ?k < a"
    by (simp add: field_simps)
  moreover have "pow2 (- ?k) = 1 / 2 ^ nat ?k"
    using b by (simp add: pow2_def)
  ultimately show ?thesis using False by simp
qed

lemma ilog2_lower: "0 < a \<Longrightarrow> pow2 (ilog2 a) \<le> a"
  using ilog2_guess_lower [of a]
  by (auto simp: ilog2_def Let_def)

lemma round_half_even_err: "\<bar>of_int (round_half_even x) - x\<bar> \<le> 1 / 2"
proof -
  have "of_int \<lfloor>x\<rfloor> \<le> x" "x < of_int \<lfloor>x\<rfloor> + 1"
    by linarith+
  then show ?thesis
    by (auto simp: round_half_even_def Let_def)
qed

lemma round_half_even_nonneg: "0 \<le> x \<Longrightarrow> 0 \<le> round_half_even x"
  by (auto simp: round_half_even_def Let_def)

lemma d64_round_err: "\<bar>d64_round x - x\<bar> \<le> unit_roundoff * \<bar>x\<bar>"
proof (cases "x = 0")
  case True
  then show ?thesis by (simp add: d64_round_def)
next
  case False
  let ?a = "\<bar>x\<bar>"
  let ?e = "ilog2 ?a - 52"
  let ?q = "?a / pow2 ?e"
  let ?m = "round_half_even ?q"
  from False have a: "0 < ?a" by simp
  have pe: "0 < pow2 ?e" by (rule pow2_pos)
  have r: "d64_round x = sgn x * of_int ?m * pow2 ?e"
    using False by (simp add: d64_round_def Let_def)
  have x: "x = sgn x * ?q * pow2 ?e"
    using pe by (simp add: sgn_mult_abs)
  have "d64_round x - x = sgn x * (of_int ?m - ?q) * pow2 ?e"
    by (subst r, subst (2) x) (simp add: algebra_simps)
  then have "\<bar>d64_round x - x\<bar> = \<bar>of_int ?m - ?q\<bar> * pow2 ?e"
    using False pe by (simp add: abs_mult abs_sgn_eq)
  also have "\<dots> \<le> (1 / 2) * pow2 ?e"
    using round_half_even_err [of ?q] pe by (simp only: mult_right_mono less_imp_le)
  also have "pow2 ?e = pow2 (ilog2 ?a) / 2 ^ 52"
    by (simp add: pow2_powi power_int_diff)
  also have "(1 / 2) * (pow2 (ilog2 ?a) / 2 ^ 52) = unit_roundoff * pow2 (ilog2 ?a)"
    by (simp add: unit_roundoff_def)
  also have "\<dots> \<le> unit_roundoff * ?a"
    using ilog2_lower [OF a] by (simp add: unit_roundoff_def)
  finally show ?thesis .
qed

lemma d64_round_nonneg: "0 \<le> x \<Longrightarrow> 0 \<le> d64_round x"
  using pow2_pos [of "ilog2 \<bar>x\<bar> - 52"]
  by (auto simp: d64_round_def Let_def intro!: mult_nonneg_nonneg round_half_even_nonneg
      divide_nonneg_pos)

lemma token_estimate_nonneg: "0 \<le> token_estimate c"
  by (simp add: token_estimate_def fmul_def float_of_nat_def float_lit_def d64_round_nonneg)

lemma unit_roundoff_nonneg: "0 \<le> unit_roundoff"
  by (simp add: unit_roundoff_def)

lemma drift_bound_nonneg: "0 \<le> drift_bound k"
  using one_le_power [of "1 + unit_roundoff" k] unit_roundoff_nonneg
  by (simp add: drift_bound_def)

lemma drift_bound_mono: "j \<le> k \<Longrightarrow> drift_bound j \<le> drift_bound k"
  using power_increasing [of j k "1 + unit_roundoff"] unit_roundoff_nonneg
  by (simp add: drift_bound_def)

lemma drift_bound_Suc:
  "drift_bound (Suc k) = unit_roundoff + (1 + unit_roundoff) * drift_bound k"
  by (simp add: drift_bound_def algebra_simps)

lemma retained_sum_nonneg: "0 \<le> retained_sum m"
  by (auto simp: retained_sum_def intro!: sum_list_nonneg token_estimate_nonneg)

lemma appended_sum_nonneg: "0 \<le> appended_sum es"
  by (auto simp: appended_sum_def intro!: sum_list_nonneg token_estimate_nonneg)

lemma drift_step:
  fixes E A A' S' r x :: rat
  assumes E: "\<bar>E\<bar> \<le> drift_bound k * A"
    and AA: "A \<le> A'" and S0: "0 \<le> S'" and SA: "S' \<le> A'"
    and r: "\<bar>r - x\<bar> \<le> unit_roundoff * \<bar>x\<bar>"
    and x: "x = S' + E"
  shows "\<bar>r - S'\<bar> \<le> drift_bound (Suc k) * A'"
proof -
  let ?u = unit_roundoff
  have u: "0 \<le> ?u" by (rule unit_roundoff_nonneg)
  have d: "0 \<le> drift_bound k" by (rule drift_bound_nonneg)
  have E': "\<bar>E\<bar> \<le> drift_bound k * A'"
    using E mult_left_mono [OF AA d] by linarith
  have "\<bar>x\<bar> \<le> S' + \<bar>E\<bar>"
    using x S0 by linarith
  then have "?u * \<bar>x\<bar> \<le> ?u * (S' + \<bar>E\<bar>)"
    using u by (rule mult_left_mono)
  with r have 1: "\<bar>r - x\<bar> \<le> ?u * S' + ?u * \<bar>E\<bar>"
    by (simp add: algebra_simps)
  have "r - S' = (r - x) + E"
    using x by simp
  then have "\<bar>r - S'\<bar> \<le> \<bar>r - x\<bar> + \<bar>E\<bar>"
    by linarith
  with 1 have 2: "\<bar>r - S'\<bar> \<le> ?u * S' + (1 + ?u) * \<bar>E\<bar>"
    by (simp add: algebra_simps)
  have 3: "?u * S' \<le> ?u * A'"
    using SA u by (rule mult_left_mono)
  have "0 \<le> 1 + ?u" using u by simp
  then have 4: "(1 + ?u) * \<bar>E\<bar> \<le> (1 + ?u) * (drift_bound k * A')"
    using E' by (rule mult_left_mono [rotated])
  have "\<bar>r - S'\<bar> \<le> ?u * A' + (1 + ?u) * (drift_bound k * A')"
    using 2 3 4 by linarith
  also have "\<dots> = drift_bound (Suc k) * A'"
    by (simp add: drift_bound_Suc algebra_simps)
  finally show ?thesis .
qed

lemma prune_drift:
  assumes "\<bar>token_count m - retained_sum m\<bar> \<le> drift_bound k * A"
    and "retained_sum m \<le> A"
  shows "\<exists>j. j + length (messages (prune_if_needed m)) = k + length (messages m) \<and>
             \<bar>token_count (prune_if_needed m) - retained_sum (prune_if_needed m)\<bar>
               \<le> drift_bound j * A \<and>
             retained_sum (prune_if_needed m) \<le> A"
  using assms
proof (induction m arbitrary: k rule: prune_if_needed.induct)
  case (1 m)
  show ?case
  proof (cases "of_int (max_tokens m) < token_count m \<and> 3 < length (messages m)")
    case False
    then have "prune_if_needed m = m"
      by (subst prune_if_needed.simps) auto
    with "1.prems" show ?thesis by auto
  next
    case True
    let ?c = "token_estimate (content (hd (messages m)))"
    let ?m' = "m\<lparr>messages := tl (messages m), token_count := fsub (token_count m) ?c\<rparr>"
    from True have len: "3 < length (messages m)" by blast
    then have ne: "messages m \<noteq> []" by auto
    have e: "prune_if_needed m = prune_if_needed ?m'"
      using True by (subst prune_if_needed.simps) simp
    have S: "retained_sum m = ?c + retained_sum ?m'"
      using ne by (cases "messages m") (simp_all add: retained_sum_def)
    have c0: "0 \<le> ?c" by (rule token_estimate_nonneg)
    have SA: "retained_sum ?m' \<le> A"
      using S c0 "1.prems"(2) by linarith
    have x: "token_count m - ?c = retained_sum ?m' + (token_count m - retained_sum m)"
      using S by simp
    have "\<bar>fsub (token_count m) ?c - retained_sum ?m'\<bar> \<le> drift_bound (Suc k) * A"
      using "1.prems"(1) order_refl retained_sum_nonneg SA _ x
    proof (rule drift_step)
      show "\<bar>fsub (token_count m) ?c - (token_count m - ?c)\<bar>
              \<le> unit_roundoff * \<bar>token_count m - ?c\<bar>"
        unfolding fsub_def by (rule d64_round_err)
    qed
    then have T: "\<bar>token_count ?m' - retained_sum ?m'\<bar> \<le> drift_bound (Suc k) * A"
      by simp
    from "1.IH" [OF True T SA]
    obtain j where j: "j + length (messages (prune_if_needed ?m')) = Suc k + length (messages ?m')"
      and b: "\<bar>token_count (prune_if_needed ?m') - retained_sum (prune_if_needed ?m')\<bar>
                \<le> drift_bound j * A"
      and s: "retained_sum (prune_if_needed ?m') \<le> A"
      by blast
    have "length (messages ?m') = length (messages m) - 1" by simp
    with len j have "j + length (messages (prune_if_needed ?m')) = k + length (messages m)"
      by simp
    with b s show ?thesis
      unfolding e by blast
  qed
qed

lemma add_message_drift:
  assumes "\<bar>token_count m - retained_sum m\<bar> \<le> drift_bound k * A"
    and "retained_sum m \<le> A"
  shows "\<exists>j. j + length (messages (add_message m r c stamp)) = k + length (messages m) + 2 \<and>
             \<bar>token_count (add_message m r c stamp) - retained_sum (add_message m r c stamp)\<bar>
               \<le> drift_bound j * (A + token_estimate c) \<and>
             retained_sum (add_message m r c stamp) \<le> A + token_estimate c"
proof -
  let ?c = "token_estimate c"
  let ?u = "m\<lparr>messages := messages m @ [Message_init r c stamp],
               token_count := fadd (token_count m) ?c\<rparr>"
  have c0: "0 \<le> ?c" by (rule token_estimate_nonneg)
  have S: "retained_sum ?u = retained_sum m + ?c"
    by (simp add: retained_sum_def Message_init_def)
  have SA: "retained_sum ?u \<le> A + ?c"
    using S assms(2) by linarith
  have AA: "A \<le> A + ?c" using c0 by simp
  have x: "token_count m + ?c = retained_sum ?u + (token_count m - retained_sum m)"
    using S by simp
  have "\<bar>fadd (token_count m) ?c - retained_sum ?u\<bar> \<le> drift_bound (Suc k) * (A + ?c)"
    using assms(1) AA retained_sum_nonneg SA _ x
  proof (rule drift_step)
    show "\<bar>fadd (token_count m) ?c - (token_count m + ?c)\<bar>
            \<le> unit_roundoff * \<bar>token_count m + ?c\<bar>"
      unfolding fadd_def by (rule d64_round_err)
  qed
  then have T: "\<bar>token_count ?u - retained_sum ?u\<bar> \<le> drift_bound (Suc k) * (A + ?c)"
    by simp
  from prune_drift [OF T SA]
  obtain j where "j + length (messages (prune_if_needed ?u)) = Suc k + length (messages ?u)"
    and "\<bar>token_count (prune_if_needed ?u) - retained_sum (prune_if_needed ?u)\<bar>
           \<le> drift_bound j * (A + ?c)"
    and "retained_sum (prune_if_needed ?u) \<le> A + ?c"
    by blast
  then show ?thesis
    unfolding add_message_def by (intro exI [of _ j]) simp
qed

lemma add_messages_drift:
  assumes "\<bar>token_count m - retained_sum m\<bar> \<le> drift_bound k * A"
    and "retained_sum m \<le> A"
  shows "\<exists>j. j + length (messages (add_messages m es)) = k + length (messages m) + 2 * length es \<and>
             \<bar>token_count (add_messages m es) - retained_sum (add_messages m es)\<bar>
               \<le> drift_bound j * (A + appended_sum es) \<and>
             retained_sum (add_messages m es) \<le> A + appended_sum es"
  using assms
proof (induction m es arbitrary: k A rule: add_messages.induct)
  case (1 m)
  then show ?case by (simp add: appended_sum_def)
next
  case (2 m r c stamp es)
  from add_message_drift [OF "2.prems", of r c stamp]
  obtain i where i: "i + length (messages (add_message m r c stamp)) = k + length (messages m) + 2"
    and b: "\<bar>token_count (add_message m r c stamp) - retained_sum (add_message m r c stamp)\<bar>
              \<le> drift_bound i * (A + token_estimate c)"
    and s: "retained_sum (add_message m r c stamp) \<le> A + token_estimate c"
    by blast
  from "2.IH" [OF b s]
  obtain j where "j + length (messages (add_messages (add_message m r c stamp) es))
                    = i + length (messages (add_message m r c stamp)) + 2 * length es"
    and "\<bar>token_count (add_messages (add_message m r c stamp) es)
            - retained_sum (add_messages (add_message m r c stamp) es)\<bar>
           \<le> drift_bound j * (A + token_estimate c + appended_sum es)"
    and "retained_sum (add_messages (add_message m r c stamp) es)
           \<le> A + token_estimate c + appended_sum es"
    by blast
  with i show ?case
    by (intro exI [of _ j]) (simp add: appended_sum_def add.assoc)
qed

lemma foldl_fadd_drift:
  assumes "\<forall>c\<in>set cs. 0 \<le> c" and "0 \<le> s" and "s + sum_list cs \<le> B"
    and "\<bar>t - s\<bar> \<le> drift_bound k * B"
  shows "\<bar>foldl fadd t cs - (s + sum_list cs)\<bar> \<le> drift_bound (k + length cs) * B"
  using assms
proof (induction cs arbitrary: t s k)
  case Nil
  then show ?case by simp
next
  case (Cons c cs)
  have c0: "0 \<le> c" using Cons.prems(1) by simp
  have rest: "0 \<le> sum_list cs"
    using Cons.prems(1) by (auto intro!: sum_list_nonneg)
  have s0: "0 \<le> s + c" using c0 Cons.prems(2) by simp
  have sB: "s + c \<le> B" using rest Cons.prems(3) by simp
  have x: "t + c = (s + c) + (t - s)" by simp
  have step: "\<bar>fadd t c - (s + c)\<bar> \<le> drift_bound (Suc k) * B"
    using Cons.prems(4) order_refl s0 sB _ x
  proof (rule drift_step)
    show "\<bar>fadd t c - (t + c)\<bar> \<le> unit_roundoff * \<bar>t + c\<bar>"
      unfolding fadd_def by (rule d64_round_err)
  qed
  have "\<bar>foldl fadd (fadd t c) cs - ((s + c) + sum_list cs)\<bar>
          \<le> drift_bound (Suc k + length cs) * B"
    using Cons.prems(1,3) s0 step by (intro Cons.IH) (simp_all add: add.assoc)
  then show ?case by (simp add: add.assoc)
qed

lemma recomputed_drift:
  "\<bar>recomputed_token_count m - retained_sum m\<bar>
     \<le> drift_bound (length (messages m)) * retained_sum m"
proof -
  let ?cs = "map (\<lambda>msg. token_estimate (content msg)) (messages m)"
  have "\<bar>foldl fadd 0 ?cs - (0 + sum_list ?cs)\<bar> \<le> drift_bound (0 + length ?cs) * retained_sum m"
  proof (rule foldl_fadd_drift)
    show "\<forall>c\<in>set ?cs. 0 \<le> c" by (auto simp: token_estimate_nonneg)
    show "0 + sum_list ?cs \<le> retained_sum m" by (simp add: retained_sum_def)
    show "\<bar>(0::rat) - 0\<bar> \<le> drift_bound 0 * retained_sum m" by (simp add: drift_bound_def)
  qed simp
  then show ?thesis
    by (simp add: recomputed_token_count_def retained_sum_def)
qed

section \<open>Claims about Memory\<close>

text \<open>
  Claim C3. Once Memory holds three messages it never holds fewer, whatever is appended
  afterwards and whatever the budget; and eviction does nothing to a memory of exactly three
  messages, also when its counter exceeds the budget.
\<close>

theorem memory_never_below_three:
  "(3 \<le> length (messages m) \<longrightarrow> 3 \<le> length (messages (add_messages m es))) \<and>
   (length (messages m) = 3 \<longrightarrow> prune_if_needed m = m)"
proof (intro conjI impI)
  assume "3 \<le> length (messages m)"
  then show "3 \<le> length (messages (add_messages m es))"
    using add_messages_keeps_three [of m es] by simp
next
  assume "length (messages m) = 3"
  then show "prune_if_needed m = m" by (simp add: prune_idle)
qed

theorem memory_never_below_three_witness:
  "3 \<le> length (messages (add_messages (Memory_init 0) (take 3 chat4))) \<and>
   3 \<le> length (messages (add_messages (add_messages (Memory_init 0) (take 3 chat4)) (drop 3 chat4))) \<and>
   prune_if_needed (add_messages (Memory_init 0) (take 3 chat4)) =
     add_messages (Memory_init 0) (take 3 chat4) \<and>
   rat_of_int (max_tokens (add_messages (Memory_init 0) (take 3 chat4)))
     < token_count (add_messages (Memory_init 0) (take 3 chat4))"
proof -
  have l: "length (messages (add_messages (Memory_init 0) (take 3 chat4))) = 3"
    by (simp only: first_three_state) (simp add: length_appended chat4_def)
  have b: "rat_of_int (max_tokens (add_messages (Memory_init 0) (take 3 chat4)))
     < token_count (add_messages (Memory_init 0) (take 3 chat4))"
    by (simp only: first_three_state) simp
  show ?thesis
    using l b memory_never_below_three
      [of "add_messages (Memory_init 0) (take 3 chat4)" "drop 3 chat4"]
    by simp
qed

text \<open>
  Claim C4, as stated, fails: the counter is a double that is increased on every append and
  decreased on every eviction, and the rounding of those steps does not cancel. With a budget
  of 1 the fourth message of \<open>chat4\<close> evicts the first; the counter is then
  6.500000000000001, while the sum recomputed over the three retained messages is 6.5, in
  double arithmetic and in exact arithmetic alike.
\<close>

theorem token_count_drifts:
  "token_count (add_messages (Memory_init 1) chat4)
     \<noteq> recomputed_token_count (add_messages (Memory_init 1) chat4) \<and>
   token_count (add_messages (Memory_init 1) chat4)
     \<noteq> exact_token_sum (add_messages (Memory_init 1) chat4) \<and>
   token_count (add_messages (Memory_init 1) chat4)
     \<noteq> retained_sum (add_messages (Memory_init 1) chat4)"
  by (simp only: four_state)
     (simp add: recomputed_token_count_def exact_token_sum_def retained_sum_def appended_def
        chat4_def Message_init_def estimate_chat4 running_sums words_chat4)

lemma recomputed_snoc:
  "recomputed_token_count (m\<lparr>messages := messages m @ [Message_init r c stamp], token_count := t\<rparr>)
     = fadd (recomputed_token_count m) (token_estimate c)"
  by (simp add: recomputed_token_count_def Message_init_def)

lemma no_eviction_invariant:
  "token_count m = recomputed_token_count m \<Longrightarrow>
   messages (add_messages m es) = messages m @ appended es \<Longrightarrow>
   token_count (add_messages m es) = recomputed_token_count (add_messages m es)"
proof (induction m es rule: add_messages.induct)
  case (1 m)
  then show ?case by simp
next
  case (2 m r c stamp es)
  let ?u = "m\<lparr>messages := messages m @ [Message_init r c stamp],
               token_count := fadd (token_count m) (token_estimate c)\<rparr>"
  let ?a = "add_message m r c stamp"
  have a: "?a = prune_if_needed ?u" by (simp add: add_message_def)
  have "length (messages (add_messages ?a es)) \<le> length (messages ?a @ appended es)"
    using add_messages_suffix [of ?a es] by (rule suffix_length_le)
  moreover have "length (messages (add_messages ?a es)) = Suc (length (messages m)) + length es"
    using "2.prems"(2) by (simp add: length_appended)
  ultimately have "Suc (length (messages m)) \<le> length (messages ?a)"
    by (simp add: length_appended)
  moreover have "length (messages ?a) \<le> length (messages ?u)"
    unfolding a using prune_suffix [of ?u] by (rule suffix_length_le)
  ultimately have "length (messages (prune_if_needed ?u)) = length (messages ?u)"
    unfolding a by simp
  then have u: "?a = ?u"
    unfolding a by (rule prune_same_length)
  have "token_count ?u = recomputed_token_count ?u"
    using "2.prems"(1) by (simp add: recomputed_snoc)
  moreover have "messages (add_messages ?u es) = messages ?u @ appended es"
    using "2.prems"(2) by (simp add: u appended_def)
  ultimately have "token_count (add_messages ?u es) = recomputed_token_count (add_messages ?u es)"
    using "2.IH" by (simp only: u)
  then show ?case by (simp add: u)
qed

lemma token_count_exact_without_eviction:
  "messages (add_messages (Memory_init mx) es) = appended es \<Longrightarrow>
   token_count (add_messages (Memory_init mx) es)
     = recomputed_token_count (add_messages (Memory_init mx) es)"
  using no_eviction_invariant [of "Memory_init mx" es]
  by (simp add: Memory_init_def recomputed_token_count_def)

text \<open>
  Claim C4, amended. After every append, eviction included, the counter equals the sum over
  the retained messages up to accumulated rounding. With \<open>n\<close> appends on a fresh memory and
  \<open>A\<close> the sum of \<open>word_count * 1.3\<close> over all \<open>n\<close> messages, it differs from the exact sum of
  the retained values by at most \<open>((1 + 2^-53)^(2n) - 1) * A\<close>, and from the sum recomputed in
  double arithmetic by at most twice that.
\<close>

theorem token_count_within_rounding:
  "\<bar>token_count (add_messages (Memory_init mx) es)
      - retained_sum (add_messages (Memory_init mx) es)\<bar>
     \<le> ((1 + 1 / 2 ^ 53) ^ (2 * length es) - 1) * appended_sum es \<and>
   \<bar>token_count (add_messages (Memory_init mx) es)
      - recomputed_token_count (add_messages (Memory_init mx) es)\<bar>
     \<le> 2 * (((1 + 1 / 2 ^ 53) ^ (2 * length es) - 1) * appended_sum es)"
proof -
  let ?m = "add_messages (Memory_init mx) es"
  let ?D = "drift_bound (2 * length es) * appended_sum es"
  have "\<bar>token_count (Memory_init mx) - retained_sum (Memory_init mx)\<bar> \<le> drift_bound 0 * 0"
    and "retained_sum (Memory_init mx) \<le> 0"
    by (simp_all add: Memory_init_def retained_sum_def)
  from add_messages_drift [OF this, of es]
  obtain j where j: "j + length (messages ?m) = 2 * length es"
    and b: "\<bar>token_count ?m - retained_sum ?m\<bar> \<le> drift_bound j * appended_sum es"
    and s: "retained_sum ?m \<le> appended_sum es"
    by (auto simp: Memory_init_def)
  from j have "j \<le> 2 * length es" by linarith
  then have "drift_bound j * appended_sum es \<le> ?D"
    using appended_sum_nonneg by (intro mult_right_mono drift_bound_mono)
  with b have 1: "\<bar>token_count ?m - retained_sum ?m\<bar> \<le> ?D" by linarith
  from j have "length (messages ?m) \<le> 2 * length es" by linarith
  then have "drift_bound (length (messages ?m)) * retained_sum ?m
               \<le> drift_bound (2 * length es) * appended_sum es"
    using s retained_sum_nonneg drift_bound_nonneg
    by (intro mult_mono drift_bound_mono)
  with recomputed_drift [of ?m]
  have 2: "\<bar>recomputed_token_count ?m - retained_sum ?m\<bar> \<le> ?D" by linarith
  from 1 2 have "\<bar>token_count ?m - recomputed_token_count ?m\<bar> \<le> 2 * ?D" by linarith
  with 1 show ?thesis
    by (simp add: drift_bound_def unit_roundoff_def)
qed

text \<open>
  Claim C5, as stated, fails: eviction removes the message at index 0, the oldest one. With
  a budget of 1 the fourth append of \<open>chat4\<close> removes the first message ever appended.
\<close>

theorem first_three_evicted:
  "\<not> set (take 3 (appended chat4)) \<subseteq> set (messages (add_messages (Memory_init 1) chat4))"
  by (simp only: four_state) (simp add: appended_def chat4_def Message_init_def)

text \<open>
  Claim C5, amended. What eviction never removes are the three messages appended most
  recently: after any sequence of appends, the last three messages of the history (all of
  it, when it is shorter) are the end of the retained sequence.
\<close>

theorem last_three_retained:
  "suffix (drop (length (messages m @ appended es) - 3) (messages m @ appended es))
          (messages (add_messages m es))"
proof -
  let ?all = "messages m @ appended es"
  let ?ms = "messages (add_messages m es)"
  obtain k where k: "?all = k @ ?ms"
    using add_messages_suffix [of m es] by (auto simp: suffix_def)
  have len: "min 3 (length ?all) \<le> length ?ms"
    using add_messages_keeps_three [of m es] by (simp add: length_appended)
  have "length ?all = length k + length ?ms"
    by (subst k) simp
  with len have "length k \<le> length ?all - 3"
    by linarith
  then have "drop (length ?all - 3) (k @ ?ms) = drop (length ?all - 3 - length k) ?ms"
    by simp
  then have "drop (length ?all - 3) ?all = drop (length ?all - 3 - length k) ?ms"
    using k by simp
  then show ?thesis
    by (simp only: suffix_drop)
qed

lemma get_last_n_zero: "get_last_n_messages m 0 = get_chat_messages m"
  by (simp add: get_last_n_messages_def get_chat_messages_def py_slice_from_def)

lemma get_last_n_positive:
  "0 < n \<Longrightarrow> get_last_n_messages m n
     = map to_chat_message (drop (length (messages m) - nat n) (messages m))"
  by (auto simp: get_last_n_messages_def py_slice_from_def Let_def max_def nat_diff_distrib
      intro!: arg_cong [where f = "\<lambda>k. drop k (messages m)"])

text \<open>
  Claim C9 fails at \<open>n = 0\<close>: the slice \<open>messages[-0:]\<close> is the whole list, so
  \<open>get_last_n_messages(0)\<close> returns every message instead of none. For a positive \<open>n\<close> the
  result is the last \<open>n\<close> messages, all of them when \<open>n\<close> exceeds the length.
\<close>

theorem get_last_zero_returns_all:
  "get_last_n_messages (add_messages (Memory_init 16000) (take 2 chat4)) 0
     = [[(''role'', ''system''), (''content'', ''helpful'')],
        [(''role'', ''user''), (''content'', ''hello'')]]"
  by (simp add: get_last_n_zero get_chat_messages_def to_chat_message_def chat4_def
      add_message_def prune_idle Memory_init_def Message_init_def)

text \<open>
  Claim C10. The retained messages are a contiguous suffix of everything appended so far,
  in the order of insertion and unchanged: eviction only removes from the front.
\<close>

theorem retained_is_suffix_of_history:
  "suffix (messages (add_messages m es)) (messages m @ appended es) \<and>
   messages (add_messages m es)
     = drop (length (messages m) + length es - length (messages (add_messages m es)))
            (messages m @ appended es)"
proof -
  let ?all = "messages m @ appended es"
  let ?ms = "messages (add_messages m es)"
  have sfx: "suffix ?ms ?all"
    by (rule add_messages_suffix)
  then obtain evicted where all: "?all = evicted @ ?ms"
    by (auto simp: suffix_def)
  have "length ?all = length evicted + length ?ms"
    by (subst all) simp
  then have "length (messages m) + length es - length ?ms = length evicted"
    by (simp add: length_appended)
  moreover have "drop (length evicted) ?all = ?ms"
    by (subst all) simp
  ultimately show ?thesis using sfx by simp
qed

section \<open>The tool-call parser\<close>

lemma match_here_suffix: "match_here p s = Some r \<Longrightarrow> suffix r s"
proof (induction p s arbitrary: r rule: match_here.induct)
  case (7 a p c cs)
  then show ?case
    by (auto split: if_splits option.splits intro: suffix_ConsI)
qed (auto split: if_splits intro: suffix_ConsI)

lemma re_search_two_literals:
  "re_search (ONE (LITERAL a) # ONE (LITERAL b) # p) s = Some m \<Longrightarrow> \<exists>t. m = a # b # t"
proof (induction s)
  case Nil
  then show ?case by simp
next
  case (Cons c cs)
  show ?case
  proof (cases "match_here (ONE (LITERAL a) # ONE (LITERAL b) # p) (c # cs)")
    case None
    with Cons show ?thesis by simp
  next
    case (Some r)
    then obtain cs' where cs: "c = a" "cs = b # cs'" and r: "match_here p cs' = Some r"
      by (cases cs) (auto split: if_splits)
    from r have "length r \<le> length cs'"
      using match_here_suffix suffix_length_le by blast
    then have "take (length (c # cs) - length r) (c # cs) = a # b # take (length cs' - length r) cs'"
      by (simp add: cs Suc_diff_le)
    with Some Cons.prems show ?thesis by simp
  qed
qed

lemma json_pattern_head:
  "\<exists>p. json_pattern = ONE (LITERAL (CHR ''{'')) # ONE (LITERAL bs) # p"
  by (simp add: json_pattern_def lits_def bs_s_star_def)

lemma json_loads_brace_backslash:
  "json_loads sc (CHR ''{'' # bs # t)
     = Inl (JSONDecodeError ''Expecting property name enclosed in double quotes'')"
  by (simp add: json_loads_def json_ws_def bs_def dq_def)

text \<open>
  Every match of \<open>json_pattern\<close> starts with an opening brace followed by a backslash, which
  the JSON decoder rejects: the parser never reports a tool call.
\<close>

lemma extract_tool_call_never_finds:
  "extract_tool_call sc response = Inr (PyNone, PyNone, response)"
proof (cases "re_search json_pattern response")
  case None
  then show ?thesis by (simp add: extract_tool_call_def)
next
  case (Some m)
  obtain p where "json_pattern = ONE (LITERAL (CHR ''{'')) # ONE (LITERAL bs) # p"
    using json_pattern_head by blast
  with Some obtain t where "m = CHR ''{'' # bs # t"
    using re_search_two_literals by metis
  with Some show ?thesis
    by (simp add: extract_tool_call_def json_loads_brace_backslash)
qed

lemma pattern_matches_escaped_text:
  "re_search json_pattern (''x'' @ escaped_call_text @ ''y'') = Some escaped_call_text"
  by (simp add: escaped_call_text_def json_pattern_def lits_def bs_s_star_def quoted_def dq_def
      bs_def)

text \<open>
  Claim C1 fails on the code: on the text \<open>{"tool":"X","parameters":{"a":"b"}}\<close> the
  pattern does not match at all, and the parser returns no tool name, no parameters and the
  text unchanged.
\<close>

theorem tool_call_not_extracted:
  "re_search json_pattern tool_call_text = None \<and>
   extract_tool_call sc tool_call_text = Inr (PyNone, PyNone, tool_call_text)"
  by (simp add: extract_tool_call_def tool_call_text_def json_pattern_def lits_def bs_s_star_def
      quoted_def dq_def bs_def)

section \<open>Claims about the agent\<close>

lemma process_user_input_single_pass:
  "process_user_input e a user_input w0 =
     (let (t1, w1) = now e w0;
          a1 = a\<lparr>memory := add_message (memory a) ''user'' user_input t1\<rparr>
      in case chat e (client a) (model a) (get_chat_messages (memory a1))
                (Some (system_prompt a)) temperature_0_7 1000 False w1 of
           (Inl err, w2) \<Rightarrow> (Inl err, a1, w2)
         | (Inr (Stream r), w2) \<Rightarrow>
             (Inl (Raised ''TypeError'' ''expected string or bytes-like object''), a1, w2)
         | (Inr (Text response), w2) \<Rightarrow>
             (let (t2, w3) = now e w2
              in (Inr response,
                  a1\<lparr>memory := add_message (memory a1) ''assistant'' response t2\<rparr>, w3)))"
  by (simp add: process_user_input_def extract_tool_call_never_finds Let_def
      split: prod.splits sum.splits chat_result.splits)

lemma chat_no_stream: "chat e c mdl msgs sp tmp mt False w \<noteq> (Inr (Stream r), w')"
  by (auto simp: chat_def Let_def split: prod.splits sum.splits if_splits)

lemma chat_scenario:
  "chat scenario_env c mdl msgs sp tmp mt False w
     = (Inr (Text (if w = 0 then primary_response else ''The answer is 4.'')), Suc w)"
  by (simp add: chat_def scenario_env_def)

lemma now_scenario: "now scenario_env w = (''2024-01-01T00:00:00'', w)"
  by (simp add: scenario_env_def)

text \<open>
  Claim C2 fails on the code: in scenario B the tool call in the primary response is not
  detected, so the turn issues one backend call, returns the primary response with the call
  text still in it, and Memory ends with the system prompt, the user message and that
  response.
\<close>

theorem scenario_b_single_backend_call:
  "(case Agent_init scenario_env [] ''llama3'' (Some ''You can calculate.'')
           (Some [calculate_tool]) False 0 of
      (Inl err, w) \<Rightarrow> False
    | (Inr a, w) \<Rightarrow>
        (case process_user_input scenario_env a ''compute 2+2'' w of
           (r, a', w') \<Rightarrow>
             r = Inr primary_response \<and> w' = 1 \<and>
             get_chat_messages (memory a') =
               [[(''role'', ''system''), (''content'', ''You can calculate.'')],
                [(''role'', ''user''), (''content'', ''compute 2+2'')],
                [(''role'', ''assistant''), (''content'', primary_response)]]))"
  by (simp add: Agent_init_def Let_def process_user_input_single_pass chat_scenario
      add_message_def prune_idle Memory_init_def get_chat_messages_def to_chat_message_def
      Message_init_def now_scenario)

text \<open>
  Claim C6. When the generation call of a turn fails, \<open>process_user_input\<close> ends with that
  error and Memory holds the user message of the turn as its last message and nothing after
  it. Conversely a turn ends with an error only when its generation call failed.
\<close>

theorem backend_failure_keeps_user_message:
  assumes "now e w0 = (t1, w1)"
  shows "(chat e (client a) (model a)
            (get_chat_messages (add_message (memory a) ''user'' user_input t1))
            (Some (system_prompt a)) temperature_0_7 1000 False w1 = (Inl err, w2)
          \<longrightarrow> process_user_input e a user_input w0
                = (Inl err, a\<lparr>memory := add_message (memory a) ''user'' user_input t1\<rparr>, w2))
       \<and> (process_user_input e a user_input w0 = (Inl err', a', w')
          \<longrightarrow> chat e (client a) (model a)
                (get_chat_messages (add_message (memory a) ''user'' user_input t1))
                (Some (system_prompt a)) temperature_0_7 1000 False w1 = (Inl err', w')
              \<and> memory a' = add_message (memory a) ''user'' user_input t1
              \<and> last (messages (memory a')) = Message_init ''user'' user_input t1)"
proof -
  let ?a1 = "a\<lparr>memory := add_message (memory a) ''user'' user_input t1\<rparr>"
  let ?c = "chat e (client a) (model a)
              (get_chat_messages (add_message (memory a) ''user'' user_input t1))
              (Some (system_prompt a)) temperature_0_7 1000 False w1"
  have run: "process_user_input e a user_input w0 =
      (case ?c of
         (Inl err, w2) \<Rightarrow> (Inl err, ?a1, w2)
       | (Inr (Stream r), w2) \<Rightarrow>
           (Inl (Raised ''TypeError'' ''expected string or bytes-like object''), ?a1, w2)
       | (Inr (Text response), w2) \<Rightarrow>
           (let (t2, w3) = now e w2
            in (Inr response,
                ?a1\<lparr>memory := add_message (memory ?a1) ''assistant'' response t2\<rparr>, w3)))"
    using assms by (simp add: process_user_input_single_pass Let_def)
  obtain r w2' where c: "?c = (r, w2')" by (cases ?c)
  show ?thesis
  proof (cases r)
    case (Inl x)
    with c run show ?thesis by (auto simp: last_add_message)
  next
    case (Inr cr)
    show ?thesis
    proof (cases cr)
      case (Text response)
      with Inr c run show ?thesis by (auto split: prod.splits)
    next
      case (Stream resp)
      with Inr c have "?c = (Inr (Stream resp), w2')" by simp
      then have False by (simp add: chat_no_stream)
      then show ?thesis ..
    qed
  qed
qed

theorem backend_failure_keeps_user_message_witness:
  "now offline_env (0::nat) = (''2024-01-01T00:00:00'', 0) \<and>
   process_user_input offline_env offline_agent ''hello'' 0
     = (Inl (Raised ''ConnectionError'' ''connection refused''),
        offline_agent\<lparr>memory :=
          add_message (memory offline_agent) ''user'' ''hello'' ''2024-01-01T00:00:00''\<rparr>, 1) \<and>
   last (messages (memory (offline_agent\<lparr>memory :=
          add_message (memory offline_agent) ''user'' ''hello'' ''2024-01-01T00:00:00''\<rparr>)))
     = Message_init ''user'' ''hello'' ''2024-01-01T00:00:00''"
proof -
  let ?a' = "offline_agent\<lparr>memory :=
               add_message (memory offline_agent) ''user'' ''hello'' ''2024-01-01T00:00:00''\<rparr>"
  have h: "now offline_env (0::nat) = (''2024-01-01T00:00:00'', 0)"
    by (simp add: offline_env_def scenario_env_def)
  have c: "chat offline_env (client offline_agent) (model offline_agent)
             (get_chat_messages
                (add_message (memory offline_agent) ''user'' ''hello'' ''2024-01-01T00:00:00''))
             (Some (system_prompt offline_agent)) temperature_0_7 1000 False 0
           = (Inl (Raised ''ConnectionError'' ''connection refused''), 1)"
    by (simp add: chat_def offline_env_def scenario_env_def)
  have p: "process_user_input offline_env offline_agent ''hello'' 0
             = (Inl (Raised ''ConnectionError'' ''connection refused''), ?a', 1)"
    using backend_failure_keeps_user_message [OF h, THEN conjunct1, rule_format, OF c] .
  have q: "last (messages (memory ?a')) = Message_init ''user'' ''hello'' ''2024-01-01T00:00:00''"
    using backend_failure_keeps_user_message [OF h, THEN conjunct2, rule_format, OF p]
    by (rule conjunct2 [THEN conjunct2])
  show ?thesis
    by (intro conjI h p q)
qed


lemma execute_tool_found:
  "find (\<lambda>t. name t = n) ts = Some t
     \<Longrightarrow> execute_tool rp ts (PyStr n) p w
           = (case func t p w of
                (Inr out, w') \<Rightarrow> (Inr out, w')
              | (Inl err, w') \<Rightarrow>
                  if is_Exception err then
                    (Inr (''Error executing tool '' @ [CHR 0x27] @ n @ [CHR 0x27] @ '': ''
                          @ str_of_error err), w')
                  else (Inl err, w'))"
  by (induction ts) (auto simp: py_str_def Tool_call_def split: if_splits prod.splits sum.splits)




text \<open>
  Claim C8, as stated, fails: the constructor does not look at the names. A list with two
  tools named \<open>calculate\<close> yields an agent holding both.
\<close>

theorem duplicate_names_accepted:
  "(case fst (Agent_init scenario_env [] ''llama3'' None (Some [failing_tool, calculate_tool])
               False 0) of
      Inl err \<Rightarrow> False
    | Inr a \<Rightarrow> map name (tools a) = [''calculate'', ''calculate''])"
  by (simp add: Agent_init_def Let_def now_scenario failing_tool_def calculate_tool_def
      Tool_init_def)

text \<open>
  Claim C8, amended. Construction succeeds for every tool list and keeps it as given (the
  standard tools when none are given); on the agent so built, a call by name is decided by
  the first tool in list order that carries the name, wherever in the list it stands.
\<close>

theorem construction_keeps_tool_list:
  "(case Agent_init e std mdl sp tls verb w of
      (Inl err, w') \<Rightarrow> False
    | (Inr a, w') \<Rightarrow>
        tools a = (case tls of None \<Rightarrow> std | Some l \<Rightarrow> if l = [] then std else l) \<and>
        (find (\<lambda>t. name t = n) (tools a) = Some t
           \<longrightarrow> execute_tool rp (tools a) (PyStr n) p w2
                 = (case func t p w2 of
                      (Inr out, w3) \<Rightarrow> (Inr out, w3)
                    | (Inl err, w3) \<Rightarrow>
                        if is_Exception err then
                          (Inr (''Error executing tool '' @ [CHR 0x27] @ n @ [CHR 0x27] @ '': ''
                                @ str_of_error err), w3)
                        else (Inl err, w3))))"
proof -
  obtain stamp w' where n: "now e w = (stamp, w')" by (cases "now e w")
  let ?ts = "case tls of None \<Rightarrow> std | Some l \<Rightarrow> if l = [] then std else l"
  obtain a where a: "Agent_init e std mdl sp tls verb w = (Inr a, w')" and t: "tools a = ?ts"
    using n by (simp add: Agent_init_def Let_def)
  have "find (\<lambda>t. name t = n) ?ts = Some t
          \<longrightarrow> execute_tool rp ?ts (PyStr n) p w2
                = (case func t p w2 of
                     (Inr out, w3) \<Rightarrow> (Inr out, w3)
                   | (Inl err, w3) \<Rightarrow>
                       if is_Exception err then
                         (Inr (''Error executing tool '' @ [CHR 0x27] @ n @ [CHR 0x27] @ '': ''
                               @ str_of_error err), w3)
                       else (Inl err, w3))"
    by (simp add: execute_tool_found)
  with a t show ?thesis by simp
qed

theorem construction_keeps_tool_list_witness:
  "find (\<lambda>t. name t = ''calculate'') [failing_tool, calculate_tool, search_tool] = Some failing_tool \<and>
   find (\<lambda>t. name t = ''search'') [failing_tool, calculate_tool, search_tool] = Some search_tool \<and>
   execute_tool (\<lambda>v. ''?'') [failing_tool, calculate_tool, search_tool] (PyStr ''calculate'')
       (PyDict []) (0::nat)
     = (Inr (''Error executing tool '' @ [CHR 0x27] @ ''calculate'' @ [CHR 0x27]
             @ '': bad input''), 0) \<and>
   execute_tool (\<lambda>v. ''?'') [failing_tool, calculate_tool, search_tool] (PyStr ''search'')
       (PyDict []) (0::nat)
     = (Inr ''Mock search results'', 0)"
  using construction_keeps_tool_list
      [where e = scenario_env and std = "[]" and mdl = "''llama3''" and sp = None
         and tls = "Some [failing_tool, calculate_tool, search_tool]" and verb = False
         and w = 0 and n = "''calculate''" and t = failing_tool and rp = "\<lambda>v. ''?''"
         and p = "PyDict []" and ?w2.0 = 0]
    construction_keeps_tool_list
      [where e = scenario_env and std = "[]" and mdl = "''llama3''" and sp = None
         and tls = "Some [failing_tool, calculate_tool, search_tool]" and verb = False
         and w = 0 and n = "''search''" and t = search_tool and rp = "\<lambda>v. ''?''"
         and p = "PyDict []" and ?w2.0 = 0]
  by (simp add: Agent_init_def Let_def now_scenario failing_tool_def calculate_tool_def
      search_tool_def Tool_init_def)

end
